theory Spec2Isabelle
  imports Main "HOL-Library.Multiset" "HOL-Library.Sublist"
begin

section \<open>Values, errors and operators\<close>

text \<open>
  The Python values that reach \<open>VertexSeq.select\<close> and \<open>EdgeSeq.select\<close> as keyword
  operands or as attribute values: \<open>None\<close>, integers, strings, lists and tuples. A set or
  a vertex sequence given as an operand is written as the list of its members.
\<close>

datatype pyval = PNone | PInt int | PStr string | PList "pyval list" | PTuple "pyval list"

text \<open>
  The error kinds of the specification. The source raises \<open>RuntimeError\<close> for
  \<open>UnsupportedOperator\<close>, \<open>ValueError\<close> for \<open>InvalidOperand\<close> and for \<open>NotFound\<close>,
  \<open>TypeError\<close> for \<open>TypeMismatch\<close>, \<open>KeyError\<close> or \<open>AttributeError\<close> for
  \<open>AttributeNotFound\<close> and \<open>IndexError\<close> for \<open>IndexOutOfRange\<close>.
\<close>

datatype error =
  IndexOutOfRange | AttributeNotFound | TypeMismatch | UnsupportedOperator | InvalidOperand | NotFound

definition bind :: "error + 'a \<Rightarrow> ('a \<Rightarrow> error + 'b) \<Rightarrow> error + 'b" where
  "bind m f = (case m of Inl e \<Rightarrow> Inl e | Inr x \<Rightarrow> f x)"

datatype oper = Op_lt | Op_gt | Op_le | Op_ge | Op_eq | Op_ne | Op_in | Op_notin

text \<open>The dictionary \<open>operators\<close> of both select methods, keyed by the operator name.\<close>

definition operators :: "string \<Rightarrow> oper option" where
  "operators = map_of
     [(''lt'', Op_lt), (''gt'', Op_gt), (''le'', Op_le), (''ge'', Op_ge),
      (''eq'', Op_eq), (''ne'', Op_ne), (''in'', Op_in), (''notin'', Op_notin)]"

section \<open>The predicate compiler\<close>

text \<open>\<open>str.rindex\<close>: the last position of a character, \<open>None\<close> where Python raises.\<close>

fun rindex :: "string \<Rightarrow> char \<Rightarrow> nat option" where
  "rindex [] c = None"
| "rindex (x # xs) c =
     (case rindex xs c of
        Some i \<Rightarrow> Some (Suc i)
      | None \<Rightarrow> if x = c then Some 0 else None)"

text \<open>\<open>str.rpartition\<close>: the parts before and after the last separator.\<close>

definition rpartition :: "string \<Rightarrow> char \<Rightarrow> string \<times> string \<times> string" where
  "rpartition s c =
     (case rindex s c of
        None \<Rightarrow> ([], [], s)
      | Some pos \<Rightarrow> (take pos s, [c], drop (Suc pos) s))"

text \<open>
  The first statement of both keyword loops: a keyword with no underscore, or whose last
  underscore is its first character, gets the suffix \<open>_eq\<close>.
\<close>

definition with_default_op :: "string \<Rightarrow> string" where
  "with_default_op keyword =
     (if CHR ''_'' \<notin> set keyword \<or> rindex keyword (CHR ''_'') = Some 0
      then keyword @ ''_eq'' else keyword)"

text \<open>
  The split of \<open>EdgeSeq.select\<close>: \<open>pos = keyword.rindex("_")\<close>, then the two slices; an
  operator name that is not a key of \<open>operators\<close> gives the whole keyword and \<open>eq\<close>.
  The keyword holds an underscore when \<open>rindex\<close> is called, so its \<open>None\<close> is never met.
\<close>

definition parse_keyword :: "string \<Rightarrow> string \<times> oper" where
  "parse_keyword keyword0 =
     (let keyword = with_default_op keyword0 in
      case rindex keyword (CHR ''_'') of
        None \<Rightarrow> (keyword, Op_eq)
      | Some pos \<Rightarrow>
          (case operators (drop (Suc pos) keyword) of
             Some func \<Rightarrow> (take pos keyword, func)
           | None \<Rightarrow> (keyword, Op_eq)))"

text \<open>The split of \<open>VertexSeq.select\<close>, written with \<open>rpartition\<close>.\<close>

definition parse_keyword_vs :: "string \<Rightarrow> string \<times> oper" where
  "parse_keyword_vs keyword0 =
     (let keyword = with_default_op keyword0 in
      case rpartition keyword (CHR ''_'') of
        (attr, _, op) \<Rightarrow>
          (case operators op of
             Some func \<Rightarrow> (attr, func)
           | None \<Rightarrow> (keyword, Op_eq)))"

section \<open>Python comparisons\<close>

datatype order3 = LT | EQ | GT

fun cmp_codes :: "nat list \<Rightarrow> nat list \<Rightarrow> order3" where
  "cmp_codes [] [] = EQ"
| "cmp_codes [] (y # ys) = LT"
| "cmp_codes (x # xs) [] = GT"
| "cmp_codes (x # xs) (y # ys) =
     (if x < y then LT else if y < x then GT else cmp_codes xs ys)"

text \<open>
  The ordering of two values: integers by value, strings by code points, lists and
  tuples by their first differing members, \<open>TypeError\<close> for every other pair.
\<close>

fun py_compare :: "pyval \<Rightarrow> pyval \<Rightarrow> error + order3"
  and seq_compare :: "pyval list \<Rightarrow> pyval list \<Rightarrow> error + order3" where
  "py_compare (PInt a) (PInt b) = Inr (if a < b then LT else if a = b then EQ else GT)"
| "py_compare (PStr a) (PStr b) = Inr (cmp_codes (map of_char a) (map of_char b))"
| "py_compare (PList xs) (PList ys) = seq_compare xs ys"
| "py_compare (PTuple xs) (PTuple ys) = seq_compare xs ys"
| "py_compare _ _ = Inl TypeMismatch"
| "seq_compare [] [] = Inr EQ"
| "seq_compare [] (y # ys) = Inr LT"
| "seq_compare (x # xs) [] = Inr GT"
| "seq_compare (x # xs) (y # ys) = (if x = y then seq_compare xs ys else py_compare x y)"

text \<open>\<open>item in container\<close>.\<close>

fun py_contains :: "pyval \<Rightarrow> pyval \<Rightarrow> error + bool" where
  "py_contains (PList xs) item = Inr (item \<in> set xs)"
| "py_contains (PTuple xs) item = Inr (item \<in> set xs)"
| "py_contains (PStr s) (PStr t) = Inr (sublist t s)"
| "py_contains _ _ = Inl TypeMismatch"

text \<open>The functions stored in \<open>operators\<close>, applied as \<open>func(v, value)\<close>.\<close>

fun py_apply :: "oper \<Rightarrow> pyval \<Rightarrow> pyval \<Rightarrow> error + bool" where
  "py_apply Op_eq a b = Inr (a = b)"
| "py_apply Op_ne a b = Inr (a \<noteq> b)"
| "py_apply Op_lt a b = bind (py_compare a b) (\<lambda>c. Inr (c = LT))"
| "py_apply Op_gt a b = bind (py_compare a b) (\<lambda>c. Inr (c = GT))"
| "py_apply Op_le a b = bind (py_compare a b) (\<lambda>c. Inr (c \<noteq> GT))"
| "py_apply Op_ge a b = bind (py_compare a b) (\<lambda>c. Inr (c \<noteq> LT))"
| "py_apply Op_in a b = py_contains b a"
| "py_apply Op_notin a b = bind (py_contains b a) (\<lambda>r. Inr (\<not> r))"

text \<open>\<open>[i for i, v in enumerate(values) if func(v, value)]\<close>, counting from \<open>i\<close>.\<close>

fun filter_values :: "nat \<Rightarrow> oper \<Rightarrow> pyval list \<Rightarrow> pyval \<Rightarrow> error + nat list" where
  "filter_values i func [] value = Inr []"
| "filter_values i func (v # vs) value =
     bind (py_apply func v value) (\<lambda>keep.
     bind (filter_values (Suc i) func vs value) (\<lambda>rest.
     Inr (if keep then i # rest else rest)))"

text \<open>\<open>[i for i, e in enumerate(es) if P e]\<close> for a test that cannot fail.\<close>

definition enumerate_where :: "('a \<Rightarrow> bool) \<Rightarrow> 'a list \<Rightarrow> nat list" where
  "enumerate_where P xs = map fst (filter (\<lambda>(i, x). P x) (enumerate 0 xs))"

fun hashable :: "pyval \<Rightarrow> bool" where
  "hashable (PList xs) = False"
| "hashable (PTuple xs) = list_all hashable xs"
| "hashable _ = True"

text \<open>\<open>set(value)\<close>: the distinct members of an iterable, which must be hashable.\<close>

fun py_set :: "pyval \<Rightarrow> error + pyval list" where
  "py_set (PList xs) = (if list_all hashable xs then Inr (remdups xs) else Inl TypeMismatch)"
| "py_set (PTuple xs) = (if list_all hashable xs then Inr (remdups xs) else Inl TypeMismatch)"
| "py_set (PStr s) = Inr (remdups (map (\<lambda>c. PStr [c]) s))"
| "py_set _ = Inl TypeMismatch"

text \<open>\<open>hasattr(value, "__iter__") and not isinstance(value, str)\<close>.\<close>

fun iterable_not_str :: "pyval \<Rightarrow> bool" where
  "iterable_not_str (PList xs) = True"
| "iterable_not_str (PTuple xs) = True"
| "iterable_not_str _ = False"

fun py_len :: "pyval \<Rightarrow> error + nat" where
  "py_len (PList xs) = Inr (length xs)"
| "py_len (PTuple xs) = Inr (length xs)"
| "py_len (PStr s) = Inr (length s)"
| "py_len _ = Inl TypeMismatch"

text \<open>\<open>value[i]\<close> at an index below the length.\<close>

fun py_getitem :: "pyval \<Rightarrow> nat \<Rightarrow> error + pyval" where
  "py_getitem (PList xs) i = (if i < length xs then Inr (xs ! i) else Inl IndexOutOfRange)"
| "py_getitem (PTuple xs) i = (if i < length xs then Inr (xs ! i) else Inl IndexOutOfRange)"
| "py_getitem (PStr s) i = (if i < length s then Inr (PStr [s ! i]) else Inl IndexOutOfRange)"
| "py_getitem _ i = Inl TypeMismatch"

section \<open>The graph engine and the attribute store\<close>

datatype neimode = Mode_out | Mode_in | Mode_all

text \<open>
  Modelled from the spec: the Graph Engine and the Attribute Store are the compiled
  extension, which is not part of the Python source. A graph is its vertex count, its
  edges in index order, its directedness, the stored attributes (one value per element
  index) and the graph methods a keyword may name (one result per element index).
  \<open>incident_mode\<close> is the mode \<open>Graph.incident\<close> takes when the caller passes none,
  which neither the Python source nor the specification fixes.
\<close>

record graph =
  vcount :: nat
  edge_list :: "(nat \<times> nat) list"
  directed :: bool
  vertex_attributes :: "string \<Rightarrow> (nat \<Rightarrow> pyval) option"
  edge_attributes :: "string \<Rightarrow> (nat \<Rightarrow> pyval) option"
  vertex_methods :: "string \<Rightarrow> (nat \<Rightarrow> pyval) option"
  edge_methods :: "string \<Rightarrow> (nat \<Rightarrow> pyval) option"
  incident_mode :: neimode

definition ecount :: "graph \<Rightarrow> nat" where
  "ecount g = length (edge_list g)"

text \<open>\<open>e.source\<close> and \<open>e.target\<close> of the edge with index \<open>e\<close>.\<close>

definition source :: "graph \<Rightarrow> nat \<Rightarrow> nat" where
  "source g e = fst (edge_list g ! e)"

definition target :: "graph \<Rightarrow> nat \<Rightarrow> nat" where
  "target g e = snd (edge_list g ! e)"

definition touches :: "graph \<Rightarrow> neimode \<Rightarrow> nat \<Rightarrow> nat \<Rightarrow> bool" where
  "touches g mode v e =
     (if directed g then
        (case mode of
           Mode_out \<Rightarrow> source g e = v
         | Mode_in \<Rightarrow> target g e = v
         | Mode_all \<Rightarrow> source g e = v \<or> target g e = v)
      else source g e = v \<or> target g e = v)"

text \<open>
  Modelled from the spec: \<open>incident(vertex_index, mode)\<close>, the ordered set of the edges
  touching a vertex; the mode is ignored for undirected graphs.
\<close>

definition incident :: "graph \<Rightarrow> nat \<Rightarrow> neimode \<Rightarrow> nat list" where
  "incident g v mode = filter (touches g mode v) [0..<ecount g]"

text \<open>
  Modelled from the spec: the engine's reading of the Python argument of \<open>incident\<close>.
  A non-negative integer is a vertex index; the engine rejects everything else.
\<close>

fun incident_call :: "graph \<Rightarrow> pyval \<Rightarrow> neimode \<Rightarrow> error + nat list" where
  "incident_call g (PInt i) mode =
     (if 0 \<le> i then Inr (incident g (nat i) mode) else Inl InvalidOperand)"
| "incident_call g _ mode = Inl InvalidOperand"

section \<open>Element views\<close>

text \<open>
  Modelled from the spec: an element view is the ordered sequence of its absolute
  indices; \<open>is_all\<close> holds iff that sequence is the whole range in order.
\<close>

type_synonym view = "nat list"

definition is_all :: "graph \<Rightarrow> view \<Rightarrow> bool" where
  "is_all g es = (es = [0..<ecount g])"

text \<open>
  Modelled from the spec: \<open>narrow(view, local_indices)\<close>, which the select methods
  reach as \<open>es.select(filtered_idxs)\<close>.
\<close>

definition narrow :: "view \<Rightarrow> nat list \<Rightarrow> error + view" where
  "narrow view local =
     (if list_all (\<lambda>i. i < length view) local
      then Inr (map ((!) view) local) else Inl IndexOutOfRange)"

text \<open>The positional arguments of a call: none, \<open>None\<close>, a callable, or integers.\<close>

datatype posargs = NoArgs | ArgNone | ArgCallable "nat \<Rightarrow> bool" | ArgIndices "nat list"

text \<open>
  Modelled from the spec: the positional phase, \<open>_VertexSeq.select\<close> and
  \<open>_EdgeSeq.select\<close> of the compiled extension.
\<close>

fun seq_select :: "view \<Rightarrow> posargs \<Rightarrow> error + view" where
  "seq_select view NoArgs = Inr view"
| "seq_select view ArgNone = Inr []"
| "seq_select view (ArgCallable f) = Inr (filter f view)"
| "seq_select view (ArgIndices idxs) = narrow view idxs"



section \<open>Selection of vertices\<close>

type_synonym kwds = "(string \<times> pyval) list"




section \<open>Selection of edges\<close>

text \<open>\<open>_ensure_set\<close>: the operand as a set of its members.\<close>

definition ensure_set :: "pyval \<Rightarrow> error + pyval list" where
  "ensure_set value = py_set value"

text \<open>\<open>e.source in value\<close> for a set of Python values and a vertex index.\<close>

definition in_set :: "pyval list \<Rightarrow> nat \<Rightarrow> bool" where
  "in_set s v = (PInt (int v) \<in> set s)"

text \<open>
  The loop \<open>for v in value: candidates.update(es.graph.incident(v))\<close>: the edge indices
  in the order of their insertion into the set \<open>candidates\<close>.
\<close>

fun candidates_of :: "graph \<Rightarrow> pyval list \<Rightarrow> error + nat list" where
  "candidates_of g [] = Inr []"
| "candidates_of g (v # vs) =
     bind (incident_call g v (incident_mode g)) (\<lambda>found.
     bind (candidates_of g vs) (\<lambda>rest.
     Inr (found @ rest)))"

text \<open>
  The two paths of \<open>_incident\<close>: the scan of the current view, and \<open>sorted(candidates)\<close>,
  the distinct candidates in increasing order, when the view holds every edge.
\<close>

definition incident_scan :: "view \<Rightarrow> nat list \<Rightarrow> nat list" where
  "incident_scan es candidates = enumerate_where (\<lambda>e. e \<in> set candidates) es"

definition incident_fast :: "nat list \<Rightarrow> nat list" where
  "incident_fast candidates = sort (remdups candidates)"

definition select_incident :: "graph \<Rightarrow> view \<Rightarrow> pyval list \<Rightarrow> error + nat list" where
  "select_incident g es value =
     bind (candidates_of g value) (\<lambda>candidates.
     Inr (if \<not> is_all g es then incident_scan es candidates
          else incident_fast candidates))"

text \<open>
  The two paths of \<open>_within\<close>. The second iterates over the set \<open>candidates\<close> itself;
  \<open>set_iter\<close> is the order in which the Python runtime iterates over a set of integers
  that was filled in the given order.
\<close>

definition within_scan :: "graph \<Rightarrow> view \<Rightarrow> pyval list \<Rightarrow> nat list \<Rightarrow> nat list" where
  "within_scan g es value candidates =
     enumerate_where
       (\<lambda>e. e \<in> set candidates \<and> in_set value (source g e) \<and> in_set value (target g e)) es"

definition within_fast ::
  "(nat list \<Rightarrow> nat list) \<Rightarrow> graph \<Rightarrow> view \<Rightarrow> pyval list \<Rightarrow> nat list \<Rightarrow> nat list" where
  "within_fast set_iter g es value candidates =
     filter (\<lambda>i. in_set value (source g (es ! i)) \<and> in_set value (target g (es ! i)))
       (set_iter candidates)"

definition select_within ::
  "(nat list \<Rightarrow> nat list) \<Rightarrow> graph \<Rightarrow> view \<Rightarrow> pyval list \<Rightarrow> error + nat list" where
  "select_within set_iter g es value =
     bind (candidates_of g value) (\<lambda>candidates.
     Inr (if \<not> is_all g es then within_scan g es value candidates
          else within_fast set_iter g es value candidates))"

text \<open>The test of \<open>_between\<close> on one edge, and its two paths.\<close>

definition joins :: "graph \<Rightarrow> pyval list \<Rightarrow> pyval list \<Rightarrow> nat \<Rightarrow> bool" where
  "joins g set1 set2 e =
     ((in_set set1 (source g e) \<and> in_set set2 (target g e))
      \<or> (in_set set1 (target g e) \<and> in_set set2 (source g e)))"

definition between_scan :: "graph \<Rightarrow> view \<Rightarrow> pyval list \<Rightarrow> pyval list \<Rightarrow> nat list" where
  "between_scan g es set1 set2 = enumerate_where (joins g set1 set2) es"

definition between_fast ::
  "(nat list \<Rightarrow> nat list) \<Rightarrow> graph \<Rightarrow> view \<Rightarrow> pyval list \<Rightarrow> pyval list \<Rightarrow> nat list
     \<Rightarrow> nat list" where
  "between_fast set_iter g es set1 set2 candidates =
     filter (\<lambda>i. joins g set1 set2 (es ! i)) (set_iter candidates)"

definition select_between ::
  "(nat list \<Rightarrow> nat list) \<Rightarrow> graph \<Rightarrow> view \<Rightarrow> pyval \<Rightarrow> error + nat list" where
  "select_between set_iter g es value =
     bind (py_len value) (\<lambda>n.
     if n \<noteq> 2 then Inl InvalidOperand
     else
       bind (py_getitem value 0) (\<lambda>v0. bind (ensure_set v0) (\<lambda>set1.
       bind (py_getitem value 1) (\<lambda>v1. bind (ensure_set v1) (\<lambda>set2.
       bind (candidates_of g set1) (\<lambda>c1.
       bind (candidates_of g set2) (\<lambda>c2.
       Inr (if \<not> is_all g es then between_scan g es set1 set2
            else between_fast set_iter g es set1 set2 (c1 @ c2)))))))))"

text \<open>
  The two paths of \<open>_source\<close> and \<open>_target\<close> on a directed graph: the scan compares the
  endpoint of every edge of the view with the operand (a set for \<open>in\<close> and \<open>notin\<close>),
  the shortcut is \<open>sorted(es.graph.incident(value, mode=...))\<close>.
\<close>

definition endpoint_scan ::
  "graph \<Rightarrow> view \<Rightarrow> (graph \<Rightarrow> nat \<Rightarrow> nat) \<Rightarrow> oper \<Rightarrow> pyval \<Rightarrow> error + nat list" where
  "endpoint_scan g es endpoint func value =
     (if func = Op_in \<or> func = Op_notin then
        bind (ensure_set value) (\<lambda>s.
        Inr (enumerate_where (\<lambda>e. in_set s (endpoint g e) = (func = Op_in)) es))
      else filter_values 0 func (map (\<lambda>e. PInt (int (endpoint g e))) es) value)"

definition endpoint_fast :: "graph \<Rightarrow> neimode \<Rightarrow> pyval \<Rightarrow> error + nat list" where
  "endpoint_fast g mode value = bind (incident_call g value mode) (\<lambda>found. Inr (sort found))"

text \<open>
  The operand of an endpoint keyword on an undirected graph, once the keyword has been
  turned into \<open>_incident\<close>: for \<open>eq\<close> the set of an iterable that is no string, or the
  singleton of any other value; for \<open>in\<close> the operand as \<open>_ensure_set\<close> reads it.
\<close>

definition undirected_operand :: "oper \<Rightarrow> pyval \<Rightarrow> error + pyval list" where
  "undirected_operand func value =
     (if func = Op_eq then
        (if iterable_not_str value then py_set value else py_set (PList [value]))
      else ensure_set value)"

text \<open>One round of the keyword loop of \<open>EdgeSeq.select\<close>, up to \<open>filtered_idxs\<close>.\<close>

definition EdgeSeq_filter ::
  "(nat list \<Rightarrow> nat list) \<Rightarrow> graph \<Rightarrow> view \<Rightarrow> string \<Rightarrow> pyval \<Rightarrow> error + nat list" where
  "EdgeSeq_filter set_iter g es keyword value =
     (case parse_keyword keyword of (attr, func) \<Rightarrow>
        if attr = [] then Inl IndexOutOfRange
        else if hd attr = CHR ''_'' then
          (if attr \<in> set [''_source'', ''_from'', ''_target'', ''_to''] \<and> \<not> directed g then
             (if func \<noteq> Op_eq \<and> func \<noteq> Op_in then Inl UnsupportedOperator
              else bind (undirected_operand func value) (select_incident g es))
           else if attr \<in> set [''_source'', ''_from''] then
             (if is_all g es \<and> func = Op_eq then endpoint_fast g Mode_out value
              else endpoint_scan g es source func value)
           else if attr \<in> set [''_target'', ''_to''] then
             (if is_all g es \<and> func = Op_eq then endpoint_fast g Mode_in value
              else endpoint_scan g es target func value)
           else if attr = ''_incident'' then
             bind (ensure_set value) (select_incident g es)
           else if attr = ''_within'' then
             bind (ensure_set value) (select_within set_iter g es)
           else if attr = ''_between'' then
             select_between set_iter g es value
           else
             (case edge_methods g (tl attr) of
                None \<Rightarrow> Inl AttributeNotFound
              | Some m \<Rightarrow> filter_values 0 func (map m es) value))
        else
          (case edge_attributes g attr of
             None \<Rightarrow> Inl AttributeNotFound
           | Some a \<Rightarrow> filter_values 0 func (map a es) value))"

text \<open>The whole round: \<open>es = es.select(filtered_idxs)\<close>.\<close>

definition EdgeSeq_step ::
  "(nat list \<Rightarrow> nat list) \<Rightarrow> graph \<Rightarrow> view \<Rightarrow> string \<Rightarrow> pyval \<Rightarrow> error + view" where
  "EdgeSeq_step set_iter g es keyword value =
     bind (EdgeSeq_filter set_iter g es keyword value) (narrow es)"

fun EdgeSeq_keywords ::
  "(nat list \<Rightarrow> nat list) \<Rightarrow> graph \<Rightarrow> view \<Rightarrow> kwds \<Rightarrow> error + view" where
  "EdgeSeq_keywords set_iter g es [] = Inr es"
| "EdgeSeq_keywords set_iter g es ((keyword, value) # rest) =
     bind (EdgeSeq_step set_iter g es keyword value) (\<lambda>es'.
     EdgeSeq_keywords set_iter g es' rest)"

definition EdgeSeq_select ::
  "(nat list \<Rightarrow> nat list) \<Rightarrow> graph \<Rightarrow> view \<Rightarrow> posargs \<Rightarrow> kwds \<Rightarrow> error + view" where
  "EdgeSeq_select set_iter g es args kwds =
     bind (seq_select es args) (\<lambda>es'. EdgeSeq_keywords set_iter g es' kwds)"

section \<open>Find\<close>







section \<open>Auxiliary notions for the proofs\<close>


text \<open>
  What is assumed of the order in which the runtime iterates over a set: every member
  once.
\<close>

definition set_iter_ok :: "(nat list \<Rightarrow> nat list) \<Rightarrow> bool" where
  "set_iter_ok set_iter = (\<forall>xs. set (set_iter xs) = set xs \<and> distinct (set_iter xs))"



definition between_test :: "graph \<Rightarrow> pyval \<Rightarrow> nat \<Rightarrow> bool" where
  "between_test g value e =
     (case bind (py_getitem value 0) ensure_set of
        Inr set1 \<Rightarrow>
          (case bind (py_getitem value 1) ensure_set of
             Inr set2 \<Rightarrow> joins g set1 set2 e
           | Inl _ \<Rightarrow> False)
      | Inl _ \<Rightarrow> False)"



text \<open>The Python value of a vertex index.\<close>

definition vertex :: "nat \<Rightarrow> pyval" where
  "vertex v = PInt (int v)"

text \<open>The test of \<open>_incident\<close> as the specification words it: an endpoint lies in the set.\<close>

definition incident_on :: "graph \<Rightarrow> nat list \<Rightarrow> nat \<Rightarrow> bool" where
  "incident_on g S e = (source g e \<in> set S \<or> target g e \<in> set S)"

section \<open>Example graphs\<close>

text \<open>
  A graph without attributes and methods. The examples take \<open>out\<close> as the mode of
  \<open>incident\<close> when the caller passes none, as the compiled engine does.
\<close>

definition plain_graph :: "nat \<Rightarrow> (nat \<times> nat) list \<Rightarrow> bool \<Rightarrow> neimode \<Rightarrow> graph" where
  "plain_graph n es d mode =
     \<lparr>vcount = n, edge_list = es, directed = d,
      vertex_attributes = (\<lambda>name. None), edge_attributes = (\<lambda>name. None),
      vertex_methods = (\<lambda>name. None), edge_methods = (\<lambda>name. None),
      incident_mode = mode\<rparr>"

text \<open>
  The order in which CPython iterates over a set of at most four small non-negative
  integers with distinct residues modulo 8: an integer is its own hash, the table has
  eight slots, and the iteration runs through the slots. So the set filled with 1 and
  then 8 is iterated as 8, 1.
\<close>

definition slot_order :: "nat list \<Rightarrow> nat list" where
  "slot_order xs = sort_key (\<lambda>x. x mod 8) (remdups xs)"

text \<open>The directed graph with the edges (0,1), (1,2) and (2,0).\<close>

definition triangle :: graph where
  "triangle = plain_graph 3 [(0, 1), (1, 2), (2, 0)] True Mode_out"

text \<open>The undirected graph with the one edge (0,1).\<close>

definition single_edge :: graph where
  "single_edge = plain_graph 2 [(0, 1)] False Mode_out"


text \<open>The test of \<open>_between\<close> as the specification words it, on sets of vertex indices.\<close>

definition between_sets :: "graph \<Rightarrow> nat list \<Rightarrow> nat list \<Rightarrow> nat \<Rightarrow> bool" where
  "between_sets g S1 S2 e =
     ((source g e \<in> set S1 \<and> target g e \<in> set S2)
      \<or> (target g e \<in> set S1 \<and> source g e \<in> set S2))"


text \<open>
  A directed graph of nine edges in which the edges 1 and 8 run from vertex 0 to vertex 1
  and every other edge from vertex 2 to vertex 3.
\<close>

definition nine_edges :: graph where
  "nine_edges =
     plain_graph 4 [(2, 3), (0, 1), (2, 3), (2, 3), (2, 3), (2, 3), (2, 3), (2, 3), (0, 1)]
       True Mode_out"






section \<open>Properties of the predicate compiler\<close>

lemma rindex_None_iff: "rindex s c = None \<longleftrightarrow> c \<notin> set s"
  by (induction s) (auto split: option.splits)

lemma rindex_append_sep:
  "c \<notin> set suf \<Longrightarrow> rindex (pre @ c # suf) c = Some (length pre)"
proof (induction pre)
  case Nil
  then show ?case by (simp add: rindex_None_iff[THEN iffD2])
next
  case (Cons x pre)
  then show ?case by simp
qed

lemma operators_eq: "operators ''eq'' = Some Op_eq"
  by (simp add: operators_def)

lemma with_default_op_has_sep: "rindex (with_default_op k) (CHR ''_'') \<noteq> None"
  by (simp add: with_default_op_def rindex_None_iff)

lemma parse_keyword_vs_eq: "parse_keyword_vs k = parse_keyword k"
  using with_default_op_has_sep[of k]
  by (auto simp: parse_keyword_vs_def parse_keyword_def rpartition_def Let_def
      split: option.splits)

lemma with_default_op_plain:
  "CHR ''_'' \<notin> set k \<Longrightarrow> parse_keyword k = (k, Op_eq)"
proof -
  assume a: "CHR ''_'' \<notin> set k"
  have r: "rindex (k @ CHR ''_'' # ''eq'') (CHR ''_'') = Some (length k)"
    by (rule rindex_append_sep) simp
  show ?thesis
    using a r by (simp add: parse_keyword_def with_default_op_def operators_eq)
qed

lemma with_default_op_leading:
  assumes "CHR ''_'' \<notin> set r"
  shows "parse_keyword (CHR ''_'' # r) = (CHR ''_'' # r, Op_eq)"
proof -
  have r0: "rindex (CHR ''_'' # r) (CHR ''_'') = Some 0"
    using assms by (simp add: rindex_None_iff[THEN iffD2])
  have r1: "rindex ((CHR ''_'' # r) @ CHR ''_'' # ''eq'') (CHR ''_'') = Some (length (CHR ''_'' # r))"
    by (rule rindex_append_sep) simp
  show ?thesis
    using r0 r1 by (simp add: parse_keyword_def with_default_op_def operators_eq)
qed

lemma parse_keyword_split:
  assumes "CHR ''_'' \<notin> set suf" and "pre \<noteq> []"
  shows "parse_keyword (pre @ CHR ''_'' # suf) =
           (case operators suf of
              Some func \<Rightarrow> (pre, func)
            | None \<Rightarrow> (pre @ CHR ''_'' # suf, Op_eq))"
proof -
  have r: "rindex (pre @ CHR ''_'' # suf) (CHR ''_'') = Some (length pre)"
    using assms(1) by (rule rindex_append_sep)
  have "with_default_op (pre @ CHR ''_'' # suf) = pre @ CHR ''_'' # suf"
    using r assms(2) by (simp add: with_default_op_def)
  then show ?thesis
    using r by (simp add: parse_keyword_def Let_def split: option.splits)
qed

lemma operators_known:
  "(operators suf \<noteq> None) =
     (suf \<in> set [''lt'', ''gt'', ''le'', ''ge'', ''eq'', ''ne'', ''in'', ''notin''])"
  unfolding operators_def map_of_eq_None_iff
  by (simp only: set_map [symmetric] list.map fst_conv not_not)

section \<open>Properties of views, comprehensions and candidates\<close>

lemma bind_Inr_iff: "bind m f = Inr y \<longleftrightarrow> (\<exists>x. m = Inr x \<and> f x = Inr y)"
  by (cases m) (simp_all add: bind_def)

lemma bind_Inr [simp]: "bind (Inr x) f = f x"
  by (simp add: bind_def)

lemma bind_Inl [simp]: "bind (Inl e) f = Inl e"
  by (simp add: bind_def)

lemma enumerate_filter_nth:
  "map ((!) (pre @ xs)) (map fst (filter (\<lambda>(i, x). P x) (enumerate (length pre) xs)))
     = filter P xs"
proof (induction xs arbitrary: pre)
  case Nil
  then show ?case by simp
next
  case (Cons x xs)
  have "map ((!) ((pre @ [x]) @ xs))
          (map fst (filter (\<lambda>(i, x). P x) (enumerate (length (pre @ [x])) xs)))
        = filter P xs"
    by (rule Cons.IH)
  then show ?case by simp
qed

lemma enumerate_where_bound: "i \<in> set (enumerate_where P xs) \<Longrightarrow> i < length xs"
  by (auto simp: enumerate_where_def in_set_enumerate_eq)

lemma narrow_enumerate_where: "narrow es (enumerate_where P es) = Inr (filter P es)"
proof -
  have "map ((!) es) (enumerate_where P es) = filter P es"
    using enumerate_filter_nth [of "[]" es P] by (simp add: enumerate_where_def)
  moreover have "list_all (\<lambda>i. i < length es) (enumerate_where P es)"
    by (simp add: list_all_iff enumerate_where_bound)
  ultimately show ?thesis by (simp add: narrow_def)
qed




lemma incident_bound: "e \<in> set (incident g v mode) \<Longrightarrow> e < ecount g"
  by (simp add: incident_def)

lemma incident_iff: "e \<in> set (incident g v mode) \<longleftrightarrow> e < ecount g \<and> touches g mode v e"
  by (auto simp: incident_def)

lemma sorted_incident: "sorted (incident g v mode)" "distinct (incident g v mode)"
  by (simp_all add: incident_def sorted_wrt_filter)

lemma incident_call_Inr:
  "incident_call g v mode = Inr found \<longleftrightarrow>
     (\<exists>i. v = PInt (int i) \<and> found = incident g i mode)"
proof (cases v)
  case (PInt z)
  then show ?thesis
    by (auto simp: nat_eq_iff intro: exI [of _ "nat z"])
qed simp_all

lemma candidates_of_iff:
  "candidates_of g s = Inr c \<Longrightarrow>
     e \<in> set c \<longleftrightarrow> e < ecount g \<and> (\<exists>v. in_set s v \<and> touches g (incident_mode g) v e)"
proof (induction s arbitrary: c)
  case Nil
  then show ?case by (simp add: in_set_def)
next
  case (Cons x s)
  from Cons.prems obtain found rest where
    f: "incident_call g x (incident_mode g) = Inr found" and
    r: "candidates_of g s = Inr rest" and c: "c = found @ rest"
    by (auto simp: bind_Inr_iff)
  from f obtain i where x: "x = PInt (int i)" and fi: "found = incident g i (incident_mode g)"
    by (auto simp: incident_call_Inr)
  show ?case
    using Cons.IH [OF r] by (auto simp: c fi x incident_iff in_set_def)
qed

lemma sorted_distinct_filter_upt:
  assumes "set c \<subseteq> {..<m}"
  shows "sort (remdups c) = filter (\<lambda>e. e \<in> set c) [0..<m]"
proof (rule sorted_distinct_set_unique)
  show "set (sort (remdups c)) = set (filter (\<lambda>e. e \<in> set c) [0..<m])"
    using assms by auto
qed (simp_all add: sorted_wrt_filter)

lemma narrow_full: "set xs \<subseteq> {..<m} \<Longrightarrow> narrow [0..<m] xs = Inr xs"
proof -
  assume a: "set xs \<subseteq> {..<m}"
  then have "list_all (\<lambda>i. i < length [0..<m]) xs" by (auto simp: list_all_iff)
  moreover have "map ((!) [0..<m]) xs = xs"
    using a by (intro map_idI) auto
  ultimately show ?thesis by (simp add: narrow_def)
qed
section \<open>Properties of the reserved edge subjects\<close>

lemma candidates_bound: "candidates_of g s = Inr c \<Longrightarrow> set c \<subseteq> {..<ecount g}"
  using candidates_of_iff by blast

lemma select_incident_narrow:
  assumes "select_incident g es s = Inr idxs"
  shows "\<exists>c. candidates_of g s = Inr c \<and>
              narrow es idxs = Inr (filter (\<lambda>e. e \<in> set c) es)"
proof -
  from assms obtain c where c: "candidates_of g s = Inr c"
    and i: "idxs = (if \<not> is_all g es then incident_scan es c else incident_fast c)"
    by (auto simp: select_incident_def bind_Inr_iff)
  have b: "set c \<subseteq> {..<ecount g}" using c by (rule candidates_bound)
  have "narrow es idxs = Inr (filter (\<lambda>e. e \<in> set c) es)"
  proof (cases "is_all g es")
    case True
    then have es: "es = [0..<ecount g]" by (simp add: is_all_def)
    have "idxs = filter (\<lambda>e. e \<in> set c) [0..<ecount g]"
      using i True b by (simp add: incident_fast_def sorted_distinct_filter_upt)
    moreover have "narrow [0..<ecount g] (filter (\<lambda>e. e \<in> set c) [0..<ecount g])
        = Inr (filter (\<lambda>e. e \<in> set c) [0..<ecount g])"
      by (rule narrow_full) auto
    ultimately show ?thesis by (simp add: es)
  next
    case False
    then show ?thesis by (simp add: i incident_scan_def narrow_enumerate_where)
  qed
  with c show ?thesis by blast
qed

lemma distinct_same_set_mset:
  "distinct xs \<Longrightarrow> distinct ys \<Longrightarrow> set xs = set ys \<Longrightarrow> mset xs = mset ys"
  by (simp add: set_eq_iff_mset_eq_distinct)

lemma fast_filter_narrow:
  assumes ok: "set_iter_ok set_iter" and b: "set c \<subseteq> {..<m}"
  shows "narrow [0..<m] (filter (\<lambda>i. P ([0..<m] ! i)) (set_iter c)) = Inr (filter P (set_iter c))"
    and "mset (filter P (set_iter c)) = mset (filter (\<lambda>e. e \<in> set c \<and> P e) [0..<m])"
proof -
  have s: "set (set_iter c) = set c" and d: "distinct (set_iter c)"
    using ok by (simp_all add: set_iter_ok_def)
  have "filter (\<lambda>i. P ([0..<m] ! i)) (set_iter c) = filter P (set_iter c)"
    using s b by (intro filter_cong) auto
  moreover have "narrow [0..<m] (filter P (set_iter c)) = Inr (filter P (set_iter c))"
    using s b by (intro narrow_full) auto
  ultimately show "narrow [0..<m] (filter (\<lambda>i. P ([0..<m] ! i)) (set_iter c))
      = Inr (filter P (set_iter c))" by simp
  show "mset (filter P (set_iter c)) = mset (filter (\<lambda>e. e \<in> set c \<and> P e) [0..<m])"
    using s b d by (intro distinct_same_set_mset) auto
qed


lemma touches_endpoint:
  "touches g mode (source g e) e \<or> touches g mode (target g e) e"
  by (cases mode) (simp_all add: touches_def)

lemma joins_candidates:
  assumes c1: "candidates_of g s1 = Inr c1" and c2: "candidates_of g s2 = Inr c2"
    and j: "joins g s1 s2 e" and e: "e < ecount g"
  shows "e \<in> set (c1 @ c2)"
proof -
  from j have "(in_set s1 (source g e) \<or> in_set s2 (source g e)) \<and>
               (in_set s1 (target g e) \<or> in_set s2 (target g e))"
    by (auto simp: joins_def)
  with touches_endpoint [of g "incident_mode g" e]
  have "\<exists>v. (in_set s1 v \<or> in_set s2 v) \<and> touches g (incident_mode g) v e"
    by blast
  then show ?thesis
    using candidates_of_iff [OF c1, of e] candidates_of_iff [OF c2, of e] e by auto
qed

lemma select_between_narrow:
  assumes ok: "set_iter_ok set_iter" and sel: "select_between set_iter g es value = Inr idxs"
  shows "\<exists>v0 v1 s1 s2 r. py_len value = Inr 2 \<and>
           py_getitem value 0 = Inr v0 \<and> py_getitem value 1 = Inr v1 \<and>
           ensure_set v0 = Inr s1 \<and> ensure_set v1 = Inr s2 \<and>
           narrow es idxs = Inr r \<and>
           mset r = mset (filter (joins g s1 s2) es) \<and>
           (\<not> is_all g es \<longrightarrow> r = filter (joins g s1 s2) es)"
proof -
  from sel obtain n where n: "py_len value = Inr n"
    by (auto simp: select_between_def bind_Inr_iff)
  with sel have n2: "n = 2"
    by (auto simp: select_between_def split: if_splits)
  from sel n n2 obtain v0 s1 v1 s2 c1 c2 where
    v0: "py_getitem value 0 = Inr v0" and s1: "ensure_set v0 = Inr s1" and
    v1: "py_getitem value 1 = Inr v1" and s2: "ensure_set v1 = Inr s2" and
    c1: "candidates_of g s1 = Inr c1" and c2: "candidates_of g s2 = Inr c2" and
    i: "idxs = (if \<not> is_all g es then between_scan g es s1 s2
                else between_fast set_iter g es s1 s2 (c1 @ c2))"
    by (auto simp: select_between_def bind_Inr_iff)
  have b: "set (c1 @ c2) \<subseteq> {..<ecount g}"
    using candidates_bound [OF c1] candidates_bound [OF c2] by auto
  have "\<exists>r. narrow es idxs = Inr r \<and> mset r = mset (filter (joins g s1 s2) es) \<and>
           (\<not> is_all g es \<longrightarrow> r = filter (joins g s1 s2) es)"
  proof (cases "is_all g es")
    case True
    then have es: "es = [0..<ecount g]" by (simp add: is_all_def)
    have "idxs = filter (\<lambda>i. joins g s1 s2 ([0..<ecount g] ! i)) (set_iter (c1 @ c2))"
      using i True by (simp add: between_fast_def es)
    moreover have "filter (\<lambda>e. e \<in> set (c1 @ c2) \<and> joins g s1 s2 e) [0..<ecount g]
        = filter (joins g s1 s2) [0..<ecount g]"
      using joins_candidates [OF c1 c2] by (intro filter_cong) auto
    ultimately show ?thesis
      using fast_filter_narrow [OF ok b, of "joins g s1 s2"] True by (auto simp: es)
  next
    case False
    then show ?thesis by (simp add: i between_scan_def narrow_enumerate_where)
  qed
  with n n2 v0 v1 s1 s2 show ?thesis by blast
qed





lemma between_operand_test:
  assumes ok: "set_iter_ok set_iter"
    and sel: "select_between set_iter g es value = Inr idxs"
  shows "\<exists>r. narrow es idxs = Inr r \<and> mset r = mset (filter (between_test g value) es) \<and>
             (\<not> is_all g es \<longrightarrow> r = filter (between_test g value) es)"
proof -
  from select_between_narrow [OF ok sel] obtain v0 v1 s1 s2 r where
    v0: "py_getitem value 0 = Inr v0" and v1: "py_getitem value 1 = Inr v1" and
    s1: "ensure_set v0 = Inr s1" and s2: "ensure_set v1 = Inr s2" and
    n: "narrow es idxs = Inr r" and m: "mset r = mset (filter (joins g s1 s2) es)" and
    o: "\<not> is_all g es \<longrightarrow> r = filter (joins g s1 s2) es"
    by blast
  have "between_test g value = joins g s1 s2"
    using v0 v1 by (simp add: between_test_def s1 s2 fun_eq_iff)
  with n m o show ?thesis by simp
qed




section \<open>Keywords of the reserved edge subjects\<close>

lemma operators_no_sep: "operators s = Some f \<Longrightarrow> CHR ''_'' \<notin> set s"
proof -
  assume "operators s = Some f"
  then have "s \<in> set [''lt'', ''gt'', ''le'', ''ge'', ''eq'', ''ne'', ''in'', ''notin'']"
    using operators_known [of s] by simp
  then show ?thesis by auto
qed

lemma parse_reserved:
  "parse_keyword ''_incident'' = (''_incident'', Op_eq)"
  "parse_keyword ''_within'' = (''_within'', Op_eq)"
  "parse_keyword ''_between'' = (''_between'', Op_eq)"
  "parse_keyword ''_source'' = (''_source'', Op_eq)"
  "parse_keyword ''_from'' = (''_from'', Op_eq)"
  "parse_keyword ''_target'' = (''_target'', Op_eq)"
  "parse_keyword ''_to'' = (''_to'', Op_eq)"
  by (rule with_default_op_leading, simp)+

lemma parse_with_operator:
  assumes "operators opname = Some func" and "pre \<noteq> []"
  shows "parse_keyword (pre @ ''_'' @ opname) = (pre, func)"
  using parse_keyword_split [OF operators_no_sep [OF assms(1)] assms(2)] assms(1) by simp

lemma EdgeSeq_filter_incident:
  "parse_keyword k = (''_incident'', f) \<Longrightarrow>
     EdgeSeq_filter set_iter g es k v = bind (ensure_set v) (select_incident g es)"
  by (simp add: EdgeSeq_filter_def)

lemma EdgeSeq_filter_within:
  "parse_keyword k = (''_within'', f) \<Longrightarrow>
     EdgeSeq_filter set_iter g es k v = bind (ensure_set v) (select_within set_iter g es)"
  by (simp add: EdgeSeq_filter_def)

lemma EdgeSeq_filter_between:
  "parse_keyword k = (''_between'', f) \<Longrightarrow>
     EdgeSeq_filter set_iter g es k v = select_between set_iter g es v"
  by (simp add: EdgeSeq_filter_def)

lemma EdgeSeq_filter_undirected:
  assumes "name \<in> set [''_source'', ''_from'', ''_target'', ''_to'']" and "\<not> directed g"
    and "parse_keyword k = (name, f)"
  shows "EdgeSeq_filter set_iter g es k v =
           (if f \<noteq> Op_eq \<and> f \<noteq> Op_in then Inl UnsupportedOperator
            else bind (undirected_operand f v) (select_incident g es))"
proof -
  have "name \<noteq> []" "hd name = CHR ''_''" using assms(1) by auto
  then show ?thesis
    using assms by (simp add: EdgeSeq_filter_def)
qed

text \<open>The round of \<open>_incident\<close> in closed form: both paths keep the candidates of the view.\<close>

lemma incident_round:
  "bind (bind operand (select_incident g es)) (narrow es) =
     (case bind operand (candidates_of g) of
        Inl e \<Rightarrow> Inl e
      | Inr c \<Rightarrow> Inr (filter (\<lambda>e. e \<in> set c) es))"
proof (cases operand)
  case (Inl e)
  then show ?thesis by simp
next
  case (Inr s)
  show ?thesis
  proof (cases "candidates_of g s")
    case (Inl e)
    then show ?thesis by (simp add: Inr select_incident_def)
  next
    case c: (Inr c)
    then obtain idxs where i: "select_incident g es s = Inr idxs"
      by (simp add: select_incident_def)
    from select_incident_narrow [OF i] c i show ?thesis by (simp add: Inr)
  qed
qed

lemma candidates_of_vertices:
  "set s \<subseteq> range vertex \<Longrightarrow> \<exists>c. candidates_of g s = Inr c"
proof (induction s)
  case Nil
  then show ?case by simp
next
  case (Cons x s)
  then obtain i c where "x = vertex i" "candidates_of g s = Inr c" by auto
  then show ?case by (simp add: vertex_def)
qed

lemma in_set_vertices [simp]: "in_set (remdups (map vertex S)) v \<longleftrightarrow> v \<in> set S"
  by (auto simp: in_set_def vertex_def)

lemma in_set_vertices' [simp]: "in_set (map vertex S) v \<longleftrightarrow> v \<in> set S"
  by (auto simp: in_set_def vertex_def)

lemma ensure_set_vertices: "ensure_set (PList (map vertex S)) = Inr (remdups (map vertex S))"
  by (simp add: ensure_set_def list_all_iff vertex_def)

lemma slot_order_ok: "set_iter_ok slot_order"
  by (simp add: set_iter_ok_def slot_order_def)

lemma one_round:
  "EdgeSeq_select set_iter g es NoArgs [(k, v)] = EdgeSeq_step set_iter g es k v"
  by (cases "EdgeSeq_step set_iter g es k v") (simp_all add: EdgeSeq_select_def)

lemma incident_round_vertices:
  assumes mode: "directed g \<longrightarrow> incident_mode g = Mode_all"
    and valid: "list_all (\<lambda>e. e < ecount g) es"
    and s: "set s = vertex ` set S"
  shows "bind (bind (Inr s) (select_incident g es)) (narrow es)
           = Inr (filter (incident_on g S) es)"
proof -
  from s have "set s \<subseteq> range vertex" by auto
  from candidates_of_vertices [OF this] obtain c where c: "candidates_of g s = Inr c"
    by blast
  have m: "in_set s v \<longleftrightarrow> v \<in> set S" for v
    using s by (auto simp: in_set_def vertex_def)
  have t: "touches g (incident_mode g) v e \<longleftrightarrow> source g e = v \<or> target g e = v" for v e
    using mode by (simp add: touches_def)
  have "filter (\<lambda>e. e \<in> set c) es = filter (incident_on g S) es"
  proof (rule filter_cong [OF refl])
    fix e assume "e \<in> set es"
    then have "e < ecount g" using valid by (simp add: list_all_iff)
    then show "(e \<in> set c) = incident_on g S e"
      using candidates_of_iff [OF c, of e] by (auto simp: m t incident_on_def)
  qed
  then show ?thesis using incident_round [of "Inr s" g es] by (simp add: c)
qed

section \<open>Endpoint keywords on undirected graphs\<close>

lemma parse_endpoint_name:
  assumes "name \<in> set [''_source'', ''_from'', ''_target'', ''_to'']"
  shows "parse_keyword name = (name, Op_eq)" and "name \<noteq> []"
  using assms parse_reserved by auto

lemma incident_step:
  "parse_keyword k = (''_incident'', f) \<Longrightarrow>
     EdgeSeq_step set_iter g es k v =
       bind (bind (ensure_set v) (select_incident g es)) (narrow es)"
  by (simp add: EdgeSeq_step_def EdgeSeq_filter_incident)

lemma undirected_step:
  assumes "\<not> directed g" and "name \<in> set [''_source'', ''_from'', ''_target'', ''_to'']"
    and "parse_keyword k = (name, f)"
  shows "EdgeSeq_step set_iter g es k v =
           (if f \<noteq> Op_eq \<and> f \<noteq> Op_in then Inl UnsupportedOperator
            else bind (bind (undirected_operand f v) (select_incident g es)) (narrow es))"
  using EdgeSeq_filter_undirected [OF assms(2) assms(1) assms(3)]
  by (simp add: EdgeSeq_step_def)

lemma undirected_eq_step:
  assumes "\<not> directed g" and "name \<in> set [''_source'', ''_from'', ''_target'', ''_to'']"
  shows "EdgeSeq_step set_iter g es name v =
           EdgeSeq_step set_iter g es ''_incident'' (if iterable_not_str v then v else PList [v])"
  using undirected_step [OF assms parse_endpoint_name(1) [OF assms(2)]]
  by (simp add: incident_step [OF parse_reserved(1)] undirected_operand_def ensure_set_def)

lemma undirected_in_step:
  assumes "\<not> directed g" and "name \<in> set [''_source'', ''_from'', ''_target'', ''_to'']"
  shows "EdgeSeq_step set_iter g es (name @ ''_in'') v =
           EdgeSeq_step set_iter g es ''_incident'' v"
proof -
  have "operators ''in'' = Some Op_in" by (simp add: operators_def)
  from parse_with_operator [OF this parse_endpoint_name(2) [OF assms(2)]]
  have "parse_keyword (name @ ''_in'') = (name, Op_in)" by simp
  from undirected_step [OF assms this] show ?thesis
    by (simp add: incident_step [OF parse_reserved(1)] undirected_operand_def)
qed

lemma undirected_unsupported:
  assumes "\<not> directed g" and "name \<in> set [''_source'', ''_from'', ''_target'', ''_to'']"
    and "operators opname = Some func" and "func \<noteq> Op_eq" and "func \<noteq> Op_in"
  shows "EdgeSeq_step set_iter g es (name @ ''_'' @ opname) v = Inl UnsupportedOperator"
  using undirected_step [OF assms(1,2)
      parse_with_operator [OF assms(3) parse_endpoint_name(2) [OF assms(2)]]] assms(4,5)
  by simp

lemma incident_select_vertices:
  assumes "directed g \<longrightarrow> incident_mode g = Mode_all"
    and "list_all (\<lambda>e. e < ecount g) es"
  shows "EdgeSeq_step set_iter g es ''_incident'' (PList (map vertex S))
           = Inr (filter (incident_on g S) es)"
proof -
  have "EdgeSeq_step set_iter g es ''_incident'' (PList (map vertex S)) =
          bind (bind (Inr (remdups (map vertex S))) (select_incident g es)) (narrow es)"
    by (simp add: incident_step [OF parse_reserved(1)] ensure_set_vertices)
  also have "\<dots> = Inr (filter (incident_on g S) es)"
    using assms by (intro incident_round_vertices) simp_all
  finally show ?thesis .
qed

lemma undirected_eq_vertices:
  assumes u: "\<not> directed g" and n: "name \<in> set [''_source'', ''_from'', ''_target'', ''_to'']"
    and v: "list_all (\<lambda>e. e < ecount g) es"
  shows "EdgeSeq_step set_iter g es name (PList (map vertex S))
           = Inr (filter (incident_on g S) es)"
    and "EdgeSeq_step set_iter g es name (vertex w) = Inr (filter (incident_on g [w]) es)"
proof -
  have m: "directed g \<longrightarrow> incident_mode g = Mode_all" using u by simp
  show "EdgeSeq_step set_iter g es name (PList (map vertex S))
           = Inr (filter (incident_on g S) es)"
    using undirected_eq_step [OF u n, of set_iter es "PList (map vertex S)"]
      incident_select_vertices [OF m v, of set_iter S] by simp
  show "EdgeSeq_step set_iter g es name (vertex w) = Inr (filter (incident_on g [w]) es)"
    using undirected_eq_step [OF u n, of set_iter es "vertex w"]
      incident_select_vertices [OF m v, of set_iter "[w]"] by (simp add: vertex_def)
qed

lemma failing_round:
  "seq_select es args = Inr es0 \<Longrightarrow> EdgeSeq_step set_iter g es0 k v = Inl e \<Longrightarrow>
     EdgeSeq_select set_iter g es args ((k, v) # rest) = Inl e"
  by (simp add: EdgeSeq_select_def)

lemma triangle_incident:
  "EdgeSeq_step slot_order triangle [0, 1, 2] ''_incident'' (PList [PInt 1]) = Inr [1]"
  by code_simp

lemma operators_table:
  "operators ''lt'' = Some Op_lt" "operators ''gt'' = Some Op_gt"
  "operators ''le'' = Some Op_le" "operators ''ge'' = Some Op_ge"
  "operators ''eq'' = Some Op_eq" "operators ''ne'' = Some Op_ne"
  "operators ''in'' = Some Op_in" "operators ''notin'' = Some Op_notin"
  by (simp_all add: operators_def)

lemma parse_each_operator:
  assumes "pre \<noteq> []"
  shows "parse_keyword (pre @ ''_lt'') = (pre, Op_lt)"
    and "parse_keyword (pre @ ''_gt'') = (pre, Op_gt)"
    and "parse_keyword (pre @ ''_le'') = (pre, Op_le)"
    and "parse_keyword (pre @ ''_ge'') = (pre, Op_ge)"
    and "parse_keyword (pre @ ''_eq'') = (pre, Op_eq)"
    and "parse_keyword (pre @ ''_ne'') = (pre, Op_ne)"
    and "parse_keyword (pre @ ''_in'') = (pre, Op_in)"
    and "parse_keyword (pre @ ''_notin'') = (pre, Op_notin)"
  using parse_with_operator [OF operators_table(1) assms]
    parse_with_operator [OF operators_table(2) assms]
    parse_with_operator [OF operators_table(3) assms]
    parse_with_operator [OF operators_table(4) assms]
    parse_with_operator [OF operators_table(5) assms]
    parse_with_operator [OF operators_table(6) assms]
    parse_with_operator [OF operators_table(7) assms]
    parse_with_operator [OF operators_table(8) assms]
  by simp_all

lemma py_apply_meaning:
  "py_apply Op_eq a b = Inr (a = b)"
  "py_apply Op_ne a b = Inr (a \<noteq> b)"
  "py_apply Op_lt (PInt i) (PInt j) = Inr (i < j)"
  "py_apply Op_gt (PInt i) (PInt j) = Inr (j < i)"
  "py_apply Op_le (PInt i) (PInt j) = Inr (i \<le> j)"
  "py_apply Op_ge (PInt i) (PInt j) = Inr (j \<le> i)"
  "py_apply Op_in a (PList xs) = Inr (a \<in> set xs)"
  "py_apply Op_notin a (PList xs) = Inr (a \<notin> set xs)"
  by auto

lemma single_edge_facts:
  "\<not> directed single_edge" "list_all (\<lambda>e. e < ecount single_edge) [0]"
  by (simp_all add: single_edge_def plain_graph_def ecount_def)


section \<open>The two paths of the reserved edge subjects\<close>
















lemma triangle_ecount: "ecount triangle = 3"
  by (simp add: triangle_def plain_graph_def ecount_def)

lemma upt_3: "[0..<3] = [0, 1, 2]"
  by (simp add: upt_conv_Cons)

lemma triangle_views:
  "set [2, 1, 0] = {..<ecount triangle}" "is_all triangle [0, 1, 2]" "\<not> is_all triangle [2, 1, 0]"
  "[0..<ecount triangle] = [0, 1, 2]"
proof -
  show "[0..<ecount triangle] = [0, 1, 2]" by (simp add: triangle_ecount upt_3)
  then show "is_all triangle [0, 1, 2]" "\<not> is_all triangle [2, 1, 0]"
    by (simp_all add: is_all_def)
  have "set [0..<ecount triangle] = {..<ecount triangle}" by auto
  then show "set [2, 1, 0] = {..<ecount triangle}"
    by (simp add: triangle_ecount upt_3 insert_commute)
qed

lemma between_bad_length:
  "py_len value = Inr n \<Longrightarrow> n \<noteq> 2 \<Longrightarrow>
     EdgeSeq_step set_iter g es ''_between'' value = Inl InvalidOperand"
  by (simp add: EdgeSeq_step_def EdgeSeq_filter_between [OF parse_reserved(3)]
      select_between_def)

lemma between_pair_round:
  assumes ok: "set_iter_ok set_iter"
  shows "\<exists>r. EdgeSeq_step set_iter g es ''_between''
                (PTuple [PList (map vertex S1), PList (map vertex S2)]) = Inr r \<and>
              mset r = mset (filter (between_sets g S1 S2) es) \<and>
              (\<not> is_all g es \<longrightarrow> r = filter (between_sets g S1 S2) es)"
proof -
  let ?v = "PTuple [PList (map vertex S1), PList (map vertex S2)]"
  have "set (remdups (map vertex S1)) \<subseteq> range vertex" by auto
  from candidates_of_vertices [OF this] obtain c1 where
    c1: "candidates_of g (remdups (map vertex S1)) = Inr c1" by blast
  have "set (remdups (map vertex S2)) \<subseteq> range vertex" by auto
  from candidates_of_vertices [OF this] obtain c2 where
    c2: "candidates_of g (remdups (map vertex S2)) = Inr c2" by blast
  have "\<exists>idxs. select_between set_iter g es ?v = Inr idxs"
    by (simp add: select_between_def ensure_set_vertices c1 c2)
  then obtain idxs where sb: "select_between set_iter g es ?v = Inr idxs" by blast
  from between_operand_test [OF ok sb] obtain r where
    r: "narrow es idxs = Inr r" "mset r = mset (filter (between_test g ?v) es)"
       "\<not> is_all g es \<longrightarrow> r = filter (between_test g ?v) es" by blast
  have bt: "between_test g ?v = between_sets g S1 S2"
    by (simp add: between_test_def ensure_set_vertices joins_def between_sets_def fun_eq_iff)
  have "EdgeSeq_step set_iter g es ''_between'' ?v = Inr r"
    by (simp add: EdgeSeq_step_def EdgeSeq_filter_between [OF parse_reserved(3)] sb r(1))
  with r bt show ?thesis by simp
qed

section \<open>Evaluations, keyword loops and find\<close>

lemma nine_edges_within:
  "EdgeSeq_select slot_order nine_edges [0, 1, 2, 3, 4, 5, 6, 7, 8] NoArgs
     [(''_within'', PList [PInt 0, PInt 1])] = Inr [8, 1]"
  by code_simp

lemma nine_edges_incident:
  "EdgeSeq_select slot_order nine_edges [0, 1, 2, 3, 4, 5, 6, 7, 8] NoArgs
     [(''_incident'', PList [PInt 0, PInt 1])] = Inr [1, 8]"
  by code_simp

lemma nine_edges_is_all: "is_all nine_edges [0, 1, 2, 3, 4, 5, 6, 7, 8]"
  by code_simp









































text \<open>
  C4. The predicate compiler is a function of the keyword alone. A keyword with no
  underscore, and a keyword whose only underscore is its first character, is its own
  subject with the operator \<open>eq\<close>. Any other keyword is split at its last underscore:
  when the suffix is \<open>lt\<close>, \<open>gt\<close>, \<open>le\<close>, \<open>ge\<close>, \<open>eq\<close>, \<open>ne\<close>, \<open>in\<close> or \<open>notin\<close>, the
  operator is the one of that name and the prefix is the subject; any other suffix makes
  the whole keyword the subject, with the operator \<open>eq\<close>. The operators compare as their
  names say. The compilers of \<open>VertexSeq.select\<close> and \<open>EdgeSeq.select\<close> agree.
\<close>

theorem parse_keyword_correct:
  "(CHR ''_'' \<notin> set k \<longrightarrow> parse_keyword k = (k, Op_eq)) \<and>
   (CHR ''_'' \<notin> set r \<longrightarrow> parse_keyword (CHR ''_'' # r) = (CHR ''_'' # r, Op_eq)) \<and>
   (CHR ''_'' \<notin> set suf \<and> pre \<noteq> [] \<longrightarrow>
      parse_keyword (pre @ CHR ''_'' # suf) =
        (case operators suf of
           Some func \<Rightarrow> (pre, func)
         | None \<Rightarrow> (pre @ CHR ''_'' # suf, Op_eq))) \<and>
   ((operators suf \<noteq> None) =
      (suf \<in> set [''lt'', ''gt'', ''le'', ''ge'', ''eq'', ''ne'', ''in'', ''notin''])) \<and>
   (CHR ''_'' \<notin> set suf \<and> pre \<noteq> [] \<and>
    suf \<notin> set [''lt'', ''gt'', ''le'', ''ge'', ''eq'', ''ne'', ''in'', ''notin''] \<longrightarrow>
      parse_keyword (pre @ CHR ''_'' # suf) = (pre @ CHR ''_'' # suf, Op_eq)) \<and>
   (pre \<noteq> [] \<longrightarrow>
      parse_keyword (pre @ ''_lt'') = (pre, Op_lt) \<and>
      parse_keyword (pre @ ''_gt'') = (pre, Op_gt) \<and>
      parse_keyword (pre @ ''_le'') = (pre, Op_le) \<and>
      parse_keyword (pre @ ''_ge'') = (pre, Op_ge) \<and>
      parse_keyword (pre @ ''_eq'') = (pre, Op_eq) \<and>
      parse_keyword (pre @ ''_ne'') = (pre, Op_ne) \<and>
      parse_keyword (pre @ ''_in'') = (pre, Op_in) \<and>
      parse_keyword (pre @ ''_notin'') = (pre, Op_notin)) \<and>
   py_apply Op_eq a b = Inr (a = b) \<and>
   py_apply Op_ne a b = Inr (a \<noteq> b) \<and>
   py_apply Op_lt (PInt i) (PInt j) = Inr (i < j) \<and>
   py_apply Op_gt (PInt i) (PInt j) = Inr (j < i) \<and>
   py_apply Op_le (PInt i) (PInt j) = Inr (i \<le> j) \<and>
   py_apply Op_ge (PInt i) (PInt j) = Inr (j \<le> i) \<and>
   py_apply Op_in a (PList xs) = Inr (a \<in> set xs) \<and>
   py_apply Op_notin a (PList xs) = Inr (a \<notin> set xs) \<and>
   parse_keyword_vs k = parse_keyword k"
proof -
  have unknown: "CHR ''_'' \<notin> set suf \<and> pre \<noteq> [] \<and>
      suf \<notin> set [''lt'', ''gt'', ''le'', ''ge'', ''eq'', ''ne'', ''in'', ''notin''] \<longrightarrow>
      parse_keyword (pre @ CHR ''_'' # suf) = (pre @ CHR ''_'' # suf, Op_eq)"
  proof
    assume a: "CHR ''_'' \<notin> set suf \<and> pre \<noteq> [] \<and>
      suf \<notin> set [''lt'', ''gt'', ''le'', ''ge'', ''eq'', ''ne'', ''in'', ''notin'']"
    then have "suf \<notin> set [''lt'', ''gt'', ''le'', ''ge'', ''eq'', ''ne'', ''in'', ''notin'']"
      by (rule conjunct2 [THEN conjunct2])
    then have "operators suf = None" using operators_known [of suf] by simp
    with a parse_keyword_split [of suf pre]
    show "parse_keyword (pre @ CHR ''_'' # suf) = (pre @ CHR ''_'' # suf, Op_eq)"
      by simp
  qed
  have sem: "py_apply Op_eq a b = Inr (a = b) \<and>
      py_apply Op_ne a b = Inr (a \<noteq> b) \<and>
      py_apply Op_lt (PInt i) (PInt j) = Inr (i < j) \<and>
      py_apply Op_gt (PInt i) (PInt j) = Inr (j < i) \<and>
      py_apply Op_le (PInt i) (PInt j) = Inr (i \<le> j) \<and>
      py_apply Op_ge (PInt i) (PInt j) = Inr (j \<le> i) \<and>
      py_apply Op_in a (PList xs) = Inr (a \<in> set xs) \<and>
      py_apply Op_notin a (PList xs) = Inr (a \<notin> set xs)"
    by (simp add: py_apply_meaning)
  have c1: "CHR ''_'' \<notin> set k \<longrightarrow> parse_keyword k = (k, Op_eq)"
    by (intro impI with_default_op_plain)
  have c2: "CHR ''_'' \<notin> set r \<longrightarrow> parse_keyword (CHR ''_'' # r) = (CHR ''_'' # r, Op_eq)"
    by (intro impI with_default_op_leading)
  have c3: "CHR ''_'' \<notin> set suf \<and> pre \<noteq> [] \<longrightarrow>
      parse_keyword (pre @ CHR ''_'' # suf) =
        (case operators suf of
           Some func \<Rightarrow> (pre, func)
         | None \<Rightarrow> (pre @ CHR ''_'' # suf, Op_eq))"
  proof
    assume "CHR ''_'' \<notin> set suf \<and> pre \<noteq> []"
    then have "CHR ''_'' \<notin> set suf" and "pre \<noteq> []" by simp_all
    then show "parse_keyword (pre @ CHR ''_'' # suf) =
        (case operators suf of
           Some func \<Rightarrow> (pre, func)
         | None \<Rightarrow> (pre @ CHR ''_'' # suf, Op_eq))"
      by (rule parse_keyword_split)
  qed
  have c6: "pre \<noteq> [] \<longrightarrow>
      parse_keyword (pre @ ''_lt'') = (pre, Op_lt) \<and>
      parse_keyword (pre @ ''_gt'') = (pre, Op_gt) \<and>
      parse_keyword (pre @ ''_le'') = (pre, Op_le) \<and>
      parse_keyword (pre @ ''_ge'') = (pre, Op_ge) \<and>
      parse_keyword (pre @ ''_eq'') = (pre, Op_eq) \<and>
      parse_keyword (pre @ ''_ne'') = (pre, Op_ne) \<and>
      parse_keyword (pre @ ''_in'') = (pre, Op_in) \<and>
      parse_keyword (pre @ ''_notin'') = (pre, Op_notin)"
    by (intro impI conjI parse_each_operator)
  show ?thesis
    by (intro conjI c1 c2 c3 operators_known unknown c6 sem [THEN conjunct1]
        sem [THEN conjunct2, THEN conjunct1]
        sem [THEN conjunct2, THEN conjunct2, THEN conjunct1]
        sem [THEN conjunct2, THEN conjunct2, THEN conjunct2, THEN conjunct1]
        sem [THEN conjunct2, THEN conjunct2, THEN conjunct2, THEN conjunct2, THEN conjunct1]
        sem [THEN conjunct2, THEN conjunct2, THEN conjunct2, THEN conjunct2, THEN conjunct2,
          THEN conjunct1]
        sem [THEN conjunct2, THEN conjunct2, THEN conjunct2, THEN conjunct2, THEN conjunct2,
          THEN conjunct2, THEN conjunct1]
        sem [THEN conjunct2, THEN conjunct2, THEN conjunct2, THEN conjunct2, THEN conjunct2,
          THEN conjunct2, THEN conjunct2]
        parse_keyword_vs_eq)
qed

theorem parse_keyword_correct_witness:
  "parse_keyword ''age'' = (''age'', Op_eq) \<and>
   parse_keyword ''_degree'' = (''_degree'', Op_eq) \<and>
   parse_keyword ''age_lt'' = (''age'', Op_lt) \<and>
   parse_keyword ''age_gt'' = (''age'', Op_gt) \<and>
   parse_keyword ''age_le'' = (''age'', Op_le) \<and>
   parse_keyword ''age_ge'' = (''age'', Op_ge) \<and>
   parse_keyword ''age_eq'' = (''age'', Op_eq) \<and>
   parse_keyword ''age_ne'' = (''age'', Op_ne) \<and>
   parse_keyword ''age_in'' = (''age'', Op_in) \<and>
   parse_keyword ''age_notin'' = (''age'', Op_notin) \<and>
   parse_keyword ''first_name'' = (''first_name'', Op_eq) \<and>
   parse_keyword_vs ''age'' = (''age'', Op_eq) \<and>
   py_apply Op_ne (PInt 1) (PInt 2) = Inr True \<and>
   py_apply Op_lt (PInt 1) (PInt 2) = Inr True \<and>
   py_apply Op_ge (PInt 1) (PInt 2) = Inr False \<and>
   py_apply Op_notin (PInt 1) (PList [PInt 2]) = Inr True"
  using parse_keyword_correct [where k = "''age''" and r = "''degree''" and suf = "''name''"
      and pre = "''first''" and a = "PInt 1" and b = "PInt 2" and i = 1 and j = 2
      and xs = "[PInt 2]"]
    parse_keyword_correct [where k = "''age''" and r = "''degree''" and suf = "''name''"
      and pre = "''age''" and a = "PInt 1" and b = "PInt 2" and i = 1 and j = 2
      and xs = "[PInt 2]"]
  by simp

text \<open>
  C2. An evaluation of \<open>EdgeSeq.select\<close> on the directed graph with the edges (0,1), (1,2)
  and (2,0), where the engine's \<open>incident\<close>, called without a mode, returns the edges that
  leave a vertex. \<open>_incident\<close> with the set {1} returns the edge (1,2) alone, on the full
  view and on a reordered view, although the edge (0,1) of the view has the endpoint 1.
\<close>

theorem incident_misses_incoming_edges:
  "incident_mode triangle = Mode_out \<and>
   is_all triangle [0, 1, 2] \<and>
   EdgeSeq_select slot_order triangle [0, 1, 2] NoArgs [(''_incident'', PList [PInt 1])]
     = Inr [1] \<and>
   EdgeSeq_select slot_order triangle [2, 1, 0] NoArgs [(''_incident'', PList [PInt 1])]
     = Inr [1] \<and>
   incident_on triangle [1] 0 \<and> incident_on triangle [1] 1"
  by code_simp

text \<open>
  C3. On an undirected graph a keyword whose subject is \<open>_source\<close>, \<open>_from\<close>, \<open>_target\<close>
  or \<open>_to\<close> and whose operator is neither \<open>eq\<close> nor \<open>in\<close> makes the selection fail with
  \<open>UnsupportedOperator\<close>, whatever the view and the operand. With \<open>eq\<close> (written or
  defaulted) and with \<open>in\<close> the round is the round of \<open>_incident\<close>, so each of the four
  subjects with the operand \<open>w\<close> keeps exactly the edges of the view incident on the vertex
  \<open>w\<close>.
\<close>

theorem undirected_endpoint_operators:
  assumes "\<not> directed g" and "name \<in> set [''_source'', ''_from'', ''_target'', ''_to'']"
  shows "(operators opname = Some func \<and> func \<noteq> Op_eq \<and> func \<noteq> Op_in \<and>
            seq_select es args = Inr es0 \<longrightarrow>
            EdgeSeq_select set_iter g es args ((name @ ''_'' @ opname, v) # rest)
              = Inl UnsupportedOperator) \<and>
         EdgeSeq_step set_iter g es name v =
           EdgeSeq_step set_iter g es ''_incident''
             (if iterable_not_str v then v else PList [v]) \<and>
         EdgeSeq_step set_iter g es (name @ ''_in'') v =
           EdgeSeq_step set_iter g es ''_incident'' v \<and>
         (list_all (\<lambda>e. e < ecount g) es \<longrightarrow>
            EdgeSeq_select set_iter g es NoArgs [(name, vertex w)]
              = Inr (filter (incident_on g [w]) es))"
proof (intro conjI impI)
  assume a: "operators opname = Some func \<and> func \<noteq> Op_eq \<and> func \<noteq> Op_in \<and>
      seq_select es args = Inr es0"
  then have "EdgeSeq_step set_iter g es0 (name @ ''_'' @ opname) v = Inl UnsupportedOperator"
    using undirected_unsupported [OF assms] by blast
  with a show "EdgeSeq_select set_iter g es args ((name @ ''_'' @ opname, v) # rest)
      = Inl UnsupportedOperator"
    using failing_round by blast
next
  show "EdgeSeq_step set_iter g es name v =
      EdgeSeq_step set_iter g es ''_incident'' (if iterable_not_str v then v else PList [v])"
    by (rule undirected_eq_step [OF assms])
next
  show "EdgeSeq_step set_iter g es (name @ ''_in'') v =
      EdgeSeq_step set_iter g es ''_incident'' v"
    by (rule undirected_in_step [OF assms])
next
  assume "list_all (\<lambda>e. e < ecount g) es"
  from undirected_eq_vertices(2) [OF assms this]
  show "EdgeSeq_select set_iter g es NoArgs [(name, vertex w)]
      = Inr (filter (incident_on g [w]) es)"
    by (simp add: one_round)
qed

theorem undirected_endpoint_operators_witness:
  "EdgeSeq_select slot_order single_edge [0] NoArgs [(''_source_lt'', PInt 1)]
     = Inl UnsupportedOperator \<and>
   EdgeSeq_select slot_order single_edge [0] NoArgs [(''_source'', PInt 0)] = Inr [0]"
proof -
  have n: "''_source'' \<in> set [''_source'', ''_from'', ''_target'', ''_to'']" by simp
  have o: "operators ''lt'' = Some Op_lt" by (simp add: operators_def)
  note t = undirected_endpoint_operators [OF single_edge_facts(1) n,
      where opname = "''lt''" and func = Op_lt and es = "[0]" and args = NoArgs
        and ?es0.0 = "[0]" and set_iter = slot_order and v = "PInt 1" and rest = "[]"
        and w = 0]
  from t o single_edge_facts(2) show ?thesis
    by (simp add: vertex_def incident_on_def source_def target_def single_edge_def
        plain_graph_def)
qed

text \<open>
  C9. For every operator name, the keywords \<open>_incident_op\<close>, \<open>_within_op\<close> and
  \<open>_between_op\<close> select what \<open>_incident\<close>, \<open>_within\<close> and \<open>_between\<close> select on the same
  view with the same operand, failures included: the operator is neither applied nor
  rejected.
\<close>

theorem reserved_subjects_ignore_operator:
  assumes "operators opname = Some func"
  shows "EdgeSeq_select set_iter g es args [(''_incident'' @ ''_'' @ opname, v)]
           = EdgeSeq_select set_iter g es args [(''_incident'', v)] \<and>
         EdgeSeq_select set_iter g es args [(''_within'' @ ''_'' @ opname, v)]
           = EdgeSeq_select set_iter g es args [(''_within'', v)] \<and>
         EdgeSeq_select set_iter g es args [(''_between'' @ ''_'' @ opname, v)]
           = EdgeSeq_select set_iter g es args [(''_between'', v)]"
proof -
  have i: "parse_keyword (''_incident'' @ ''_'' @ opname) = (''_incident'', func)"
    by (rule parse_with_operator [OF assms]) simp
  have w: "parse_keyword (''_within'' @ ''_'' @ opname) = (''_within'', func)"
    by (rule parse_with_operator [OF assms]) simp
  have b: "parse_keyword (''_between'' @ ''_'' @ opname) = (''_between'', func)"
    by (rule parse_with_operator [OF assms]) simp
  have "EdgeSeq_filter set_iter g es' (''_incident'' @ ''_'' @ opname) v
          = EdgeSeq_filter set_iter g es' ''_incident'' v" for es'
    by (simp only: EdgeSeq_filter_incident [OF i] EdgeSeq_filter_incident [OF parse_reserved(1)])
  moreover have "EdgeSeq_filter set_iter g es' (''_within'' @ ''_'' @ opname) v
          = EdgeSeq_filter set_iter g es' ''_within'' v" for es'
    by (simp only: EdgeSeq_filter_within [OF w] EdgeSeq_filter_within [OF parse_reserved(2)])
  moreover have "EdgeSeq_filter set_iter g es' (''_between'' @ ''_'' @ opname) v
          = EdgeSeq_filter set_iter g es' ''_between'' v" for es'
    by (simp only: EdgeSeq_filter_between [OF b] EdgeSeq_filter_between [OF parse_reserved(3)])
  ultimately show ?thesis
    by (simp only: EdgeSeq_select_def EdgeSeq_keywords.simps EdgeSeq_step_def)
qed

theorem reserved_subjects_ignore_operator_witness:
  "EdgeSeq_select slot_order triangle [0, 1, 2] NoArgs [(''_incident_lt'', PList [PInt 1])]
     = Inr [1]"
proof -
  have o: "operators ''lt'' = Some Op_lt" by (simp add: operators_def)
  from reserved_subjects_ignore_operator [OF o, where set_iter = slot_order and g = triangle
      and es = "[0, 1, 2]" and args = NoArgs and v = "PList [PInt 1]"]
    triangle_incident
  show ?thesis by (simp add: one_round)
qed






text \<open>
  C6. \<open>_between\<close> with an operand whose length is not 2 fails with \<open>InvalidOperand\<close> and
  returns no view. With a pair of sets of vertices it succeeds and keeps exactly the
  edges of the current view that have one endpoint in the first set and the other in the
  second, in either direction: each such edge as often as the view holds it, and in the
  order of the view when the view is not full.
\<close>

theorem between_selects_joining_edges:
  assumes "set_iter_ok set_iter"
  shows "(py_len v = Inr n \<and> n \<noteq> 2 \<longrightarrow>
            EdgeSeq_select set_iter g es NoArgs [(''_between'', v)] = Inl InvalidOperand) \<and>
         (\<exists>r. EdgeSeq_select set_iter g es NoArgs
                 [(''_between'', PTuple [PList (map vertex S1), PList (map vertex S2)])] = Inr r \<and>
               mset r = mset (filter (between_sets g S1 S2) es) \<and>
               (\<not> is_all g es \<longrightarrow> r = filter (between_sets g S1 S2) es))"
  using between_bad_length [of v n set_iter g es]
    between_pair_round [OF assms, of g es S1 S2]
  by (simp add: one_round)

theorem between_selects_joining_edges_witness:
  "EdgeSeq_select slot_order triangle [2, 1, 0] NoArgs
     [(''_between'', PTuple [PList [PInt 1], PList [PInt 0, PInt 2]])] = Inr [1, 0] \<and>
   EdgeSeq_select slot_order triangle [2, 1, 0] NoArgs
     [(''_between'', PTuple [PList [PInt 1]])] = Inl InvalidOperand"
proof -
  from between_selects_joining_edges [OF slot_order_ok,
      where v = "PTuple [PList [PInt 1]]" and n = 1 and g = triangle and es = "[2, 1, 0]"
        and ?S1.0 = "[1]" and ?S2.0 = "[0, 2]"] triangle_views(3)
  show ?thesis
    by (auto simp: vertex_def between_sets_def source_def target_def triangle_def
        plain_graph_def)
qed

text \<open>
  C5. An evaluation of \<open>EdgeSeq.select\<close> on a full view: the nine edges in increasing
  order, of which the edges 1 and 8 join the vertices 0 and 1. With the set \<open>{0, 1}\<close>,
  \<open>_incident\<close> returns the edges 1 and 8 in increasing order, and \<open>_within\<close> returns them
  in the order in which the runtime iterates over the set of candidates, 8 before 1.
\<close>

theorem within_shortcut_follows_set_order:
  "is_all nine_edges [0, 1, 2, 3, 4, 5, 6, 7, 8] \<and>
   EdgeSeq_select slot_order nine_edges [0, 1, 2, 3, 4, 5, 6, 7, 8] NoArgs
     [(''_within'', PList [PInt 0, PInt 1])] = Inr [8, 1] \<and>
   EdgeSeq_select slot_order nine_edges [0, 1, 2, 3, 4, 5, 6, 7, 8] NoArgs
     [(''_incident'', PList [PInt 0, PInt 1])] = Inr [1, 8]"
  using nine_edges_is_all nine_edges_within nine_edges_incident by simp







end
